theory Spec2Isabelle
  imports Main "HOL-Library.Word"
begin

section \<open>JavaScript values used by the store\<close>

text \<open>
  A JavaScript string is a sequence of 16-bit code units; its \<^verbatim>\<open>.length\<close> counts
  code units. \<open>js\<close> writes an ASCII literal as such a sequence.
\<close>

type_synonym jsstring = "16 word list"

definition js :: "string \<Rightarrow> jsstring" where
  "js cs = map of_char cs"

text \<open>
  The values handed to \<^verbatim>\<open>put\<close> and returned by \<^verbatim>\<open>get\<close>: the primitive values
  \<^verbatim>\<open>undefined\<close>, \<^verbatim>\<open>null\<close>, booleans and strings. (The page's forms only pass
  non-empty strings; \<^verbatim>\<open>get\<close> itself produces \<^verbatim>\<open>null\<close>.) Numbers and objects are not
  modelled.
\<close>

datatype jsvalue = JSUndefined | JSNull | JSBool bool | JSString jsstring

text \<open>
  How a call completes: normally with a result, or by throwing. \<^verbatim>\<open>TypeError\<close> and
  \<^verbatim>\<open>RangeError\<close> are the language's error kinds for a field read on
  \<^verbatim>\<open>undefined\<close> and for a value outside its allowed range.
\<close>

datatype js_error = TypeError | RangeError

datatype 'a completion = Normal 'a | Throw js_error

section \<open>\<^verbatim>\<open>JSON.stringify\<close> on primitive values\<close>

definition hexdigit :: "nat \<Rightarrow> 16 word" where
  "hexdigit n = (if n < 10 then of_nat (48 + n) else of_nat (87 + n))"

text \<open>\<^verbatim>\<open>UnicodeEscape\<close>: a backslash, \<^verbatim>\<open>u\<close> and four lowercase hexadecimal digits.\<close>

definition UnicodeEscape :: "16 word \<Rightarrow> jsstring" where
  "UnicodeEscape u =
     [0x5C, 0x75,
      hexdigit (unat u div 4096 mod 16), hexdigit (unat u div 256 mod 16),
      hexdigit (unat u div 16 mod 16), hexdigit (unat u mod 16)]"

definition is_leading_surrogate :: "16 word \<Rightarrow> bool" where
  "is_leading_surrogate u = (0xD800 \<le> u \<and> u \<le> 0xDBFF)"

definition is_trailing_surrogate :: "16 word \<Rightarrow> bool" where
  "is_trailing_surrogate u = (0xDC00 \<le> u \<and> u \<le> 0xDFFF)"

text \<open>
  The body of \<^verbatim>\<open>QuoteJSONString\<close>, code point by code point: the seven characters
  with a short escape, the other control characters and the unpaired surrogates as
  \<^verbatim>\<open>\uXXXX\<close>, everything else (surrogate pairs included) unchanged.
\<close>

fun quote_units :: "jsstring \<Rightarrow> jsstring" where
  "quote_units [] = []"
| "quote_units (u # us) =
     (if u = 0x08 then [0x5C, 0x62] @ quote_units us
      else if u = 0x09 then [0x5C, 0x74] @ quote_units us
      else if u = 0x0A then [0x5C, 0x6E] @ quote_units us
      else if u = 0x0C then [0x5C, 0x66] @ quote_units us
      else if u = 0x0D then [0x5C, 0x72] @ quote_units us
      else if u = 0x22 then [0x5C, 0x22] @ quote_units us
      else if u = 0x5C then [0x5C, 0x5C] @ quote_units us
      else if u < 0x20 then UnicodeEscape u @ quote_units us
      else if is_leading_surrogate u then
        (case us of
           [] \<Rightarrow> UnicodeEscape u
         | v # vs \<Rightarrow>
             if is_trailing_surrogate v then u # v # quote_units vs
             else UnicodeEscape u @ quote_units us)
      else if is_trailing_surrogate u then UnicodeEscape u @ quote_units us
      else u # quote_units us)"

definition QuoteJSONString :: "jsstring \<Rightarrow> jsstring" where
  "QuoteJSONString s = [0x22] @ quote_units s @ [0x22]"

text \<open>
  \<^verbatim>\<open>JSON.stringify(value)\<close>; \<open>None\<close> is the result \<^verbatim>\<open>undefined\<close>, which has no
  \<^verbatim>\<open>.length\<close>.
\<close>

fun JSON_stringify :: "jsvalue \<Rightarrow> jsstring option" where
  "JSON_stringify JSUndefined = None"
| "JSON_stringify JSNull = Some (js ''null'')"
| "JSON_stringify (JSBool b) = Some (if b then js ''true'' else js ''false'')"
| "JSON_stringify (JSString s) = Some (QuoteJSONString s)"

section \<open>Data structures\<close>

text \<open>
  \<^verbatim>\<open>class LogEntry\<close>. The timestamp is \<^verbatim>\<open>new Date().toISOString()\<close>, the clock
  reading at construction; every operation that builds a record takes it as an argument.
\<close>

record LogEntry =
  timestamp :: jsstring
  key :: jsstring
  "value" :: jsvalue
  isTombstone :: bool

definition new_LogEntry :: "jsstring \<Rightarrow> jsstring \<Rightarrow> jsvalue \<Rightarrow> bool \<Rightarrow> LogEntry" where
  "new_LogEntry now k v t =
     \<lparr>LogEntry.timestamp = now, key = k, value = v, isTombstone = t\<rparr>"

text \<open>\<^verbatim>\<open>class KeyDirEntry\<close>.\<close>

record KeyDirEntry =
  fileId :: jsstring
  valueSize :: nat
  valuePos :: int
  timestamp :: jsstring

definition new_KeyDirEntry :: "jsstring \<Rightarrow> nat \<Rightarrow> int \<Rightarrow> jsstring \<Rightarrow> KeyDirEntry" where
  "new_KeyDirEntry f sz pos ts =
     \<lparr>fileId = f, valueSize = sz, valuePos = pos, timestamp = ts\<rparr>"

text \<open>
  \<^verbatim>\<open>class BitcaskStore\<close>: \<open>log\<close> is the array of records (the "disk"), \<open>keyDir\<close> the
  \<^verbatim>\<open>Map\<close> from key to index entry (the "memory").
\<close>

record BitcaskStore =
  log :: "LogEntry list"
  keyDir :: "jsstring \<rightharpoonup> KeyDirEntry"

definition new_BitcaskStore :: BitcaskStore where
  "new_BitcaskStore = \<lparr>log = [], keyDir = Map.empty\<rparr>"

section \<open>Operations\<close>

text \<open>
  The array read \<^verbatim>\<open>this.log[pos]\<close>. JavaScript does not check the range: outside
  \<open>0 \<le> pos < length\<close> the expression evaluates to \<^verbatim>\<open>undefined\<close> (here \<open>None\<close>) and
  raises nothing.
\<close>

definition readAt :: "LogEntry list \<Rightarrow> int \<Rightarrow> LogEntry option" where
  "readAt l pos = (if 0 \<le> pos \<and> pos < int (length l) then Some (l ! nat pos) else None)"

text \<open>
  Every method takes the store and returns how the call completed together with the
  store it leaves behind.

  \<^verbatim>\<open>put\<close> pushes the record first and computes
  \<^verbatim>\<open>JSON.stringify(value).length\<close> afterwards: when \<^verbatim>\<open>JSON.stringify\<close> gives
  \<^verbatim>\<open>undefined\<close>, reading \<^verbatim>\<open>.length\<close> throws a \<^verbatim>\<open>TypeError\<close> with the record already
  in the log and the index not yet updated.
\<close>

definition put :: "BitcaskStore \<Rightarrow> jsstring \<Rightarrow> jsvalue \<Rightarrow> jsstring \<Rightarrow> unit completion \<times> BitcaskStore" where
  "put s k v now =
     (let entry = new_LogEntry now k v False;
          s1 = s\<lparr>log := log s @ [entry]\<rparr>;
          offset = int (length (log s1)) - 1
      in case JSON_stringify v of
           None \<Rightarrow> (Throw TypeError, s1)
         | Some str \<Rightarrow>
             (Normal (),
              s1\<lparr>keyDir := (keyDir s1)(k \<mapsto>
                    new_KeyDirEntry (js ''active.data'') (length str) offset
                      (LogEntry.timestamp entry))\<rparr>))"

text \<open>\<^verbatim>\<open>this.keyDir.has(key)\<close>.\<close>

definition keyDir_has :: "BitcaskStore \<Rightarrow> jsstring \<Rightarrow> bool" where
  "keyDir_has s k = (case keyDir s k of None \<Rightarrow> False | Some e \<Rightarrow> True)"

text \<open>
  \<^verbatim>\<open>get\<close>: \<^verbatim>\<open>null\<close> when the key is not in \<open>keyDir\<close>; otherwise the \<open>value\<close> field of
  \<^verbatim>\<open>this.log[meta.valuePos]\<close>, and reading a field of \<^verbatim>\<open>undefined\<close> throws a
  \<^verbatim>\<open>TypeError\<close>.
\<close>

definition get :: "BitcaskStore \<Rightarrow> jsstring \<Rightarrow> jsvalue completion \<times> BitcaskStore" where
  "get s k =
     (case keyDir s k of
        None \<Rightarrow> (Normal JSNull, s)
      | Some meta \<Rightarrow>
          (case readAt (log s) (valuePos meta) of
             None \<Rightarrow> (Throw TypeError, s)
           | Some entry \<Rightarrow> (Normal (value entry), s)))"

text \<open>\<^verbatim>\<open>delete\<close>: push a tombstone record, then remove the key from \<open>keyDir\<close>.\<close>

definition delete :: "BitcaskStore \<Rightarrow> jsstring \<Rightarrow> jsstring \<Rightarrow> unit completion \<times> BitcaskStore" where
  "delete s k now =
     (let entry = new_LogEntry now k (JSString (js ''DELETE_TOMBSTONE'')) True;
          s1 = s\<lparr>log := log s @ [entry]\<rparr>
      in (Normal (), s1\<lparr>keyDir := (keyDir s1)(k := None)\<rparr>))"

section \<open>Sequences of operations\<close>

datatype op = Put jsstring jsvalue jsstring | Delete jsstring jsstring

fun apply_op :: "BitcaskStore \<Rightarrow> op \<Rightarrow> unit completion \<times> BitcaskStore" where
  "apply_op s (Put k v now) = put s k v now"
| "apply_op s (Delete k now) = delete s k now"

text \<open>
  \<open>run s ops\<close> is the store after the calls \<open>ops\<close>, in order, on \<open>s\<close>. The store object
  outlives a call that throws (an event handler that throws does not end the page), so
  the next call starts from what the failed one left.
\<close>

fun run :: "BitcaskStore \<Rightarrow> op list \<Rightarrow> BitcaskStore" where
  "run s [] = s"
| "run s (x # xs) = run (snd (apply_op s x)) xs"

text \<open>\<open>returns s ops\<close>: every call of \<open>ops\<close>, run in order from \<open>s\<close>, returns normally.\<close>

fun returns :: "BitcaskStore \<Rightarrow> op list \<Rightarrow> bool" where
  "returns s [] = True"
| "returns s (x # xs) =
     (fst (apply_op s x) = Normal () \<and> returns (snd (apply_op s x)) xs)"

section \<open>The log seen from a key\<close>

text \<open>The most recent record of the log with key \<open>k\<close>, if there is one.\<close>

definition latest :: "jsstring \<Rightarrow> LogEntry list \<Rightarrow> LogEntry option" where
  "latest k l = find (\<lambda>r. key r = k) (rev l)"

text \<open>The most recent record for \<open>k\<close> exists and is a live write.\<close>

definition latest_live :: "jsstring \<Rightarrow> LogEntry list \<Rightarrow> bool" where
  "latest_live k l = (case latest k l of None \<Rightarrow> False | Some r \<Rightarrow> \<not> isTombstone r)"

text \<open>
  The index entry of \<open>k\<close>, when there is one, points into the log at a live record of \<open>k\<close>.
\<close>

definition entry_live :: "BitcaskStore \<Rightarrow> jsstring \<Rightarrow> bool" where
  "entry_live s k =
     (case keyDir s k of
        None \<Rightarrow> True
      | Some e \<Rightarrow>
          (case readAt (log s) (valuePos e) of
             None \<Rightarrow> False
           | Some r \<Rightarrow> key r = k \<and> \<not> isTombstone r))"

section \<open>Effect of one call\<close>

lemma put_log: "log (snd (put s k v now)) = log s @ [new_LogEntry now k v False]"
  by (simp add: put_def Let_def split: option.split)

lemma put_fst:
  "fst (put s k v now) =
     (case JSON_stringify v of None \<Rightarrow> Throw TypeError | Some str \<Rightarrow> Normal ())"
  by (simp add: put_def Let_def split: option.split)

lemma returns_put: "(fst (put s k v now) = Normal ()) = (JSON_stringify v \<noteq> None)"
  by (simp add: put_fst split: option.split)

lemma put_keyDir_Some:
  "JSON_stringify v = Some str \<Longrightarrow>
   keyDir (snd (put s k v now)) =
     (keyDir s)(k \<mapsto>
        new_KeyDirEntry (js ''active.data'') (length str) (int (length (log s))) now)"
  by (simp add: put_def Let_def new_LogEntry_def)

lemma put_keyDir_None: "JSON_stringify v = None \<Longrightarrow> keyDir (snd (put s k v now)) = keyDir s"
  by (simp add: put_def Let_def)

lemma delete_log:
  "log (snd (delete s k now)) =
     log s @ [new_LogEntry now k (JSString (js ''DELETE_TOMBSTONE'')) True]"
  by (simp add: delete_def Let_def)

lemma delete_keyDir: "keyDir (snd (delete s k now)) = (keyDir s)(k := None)"
  by (simp add: delete_def Let_def)

lemma delete_fst: "fst (delete s k now) = Normal ()"
  by (simp add: delete_def Let_def)

lemma keyDir_has_put:
  "JSON_stringify v = Some str \<Longrightarrow>
   keyDir_has (snd (put s k v now)) k' = (if k' = k then True else keyDir_has s k')"
  by (simp add: keyDir_has_def put_keyDir_Some)




lemma readAt_snoc_new: "readAt (l @ [r]) (int (length l)) = Some r"
  by (simp add: readAt_def)

lemma readAt_snoc_Some: "readAt l pos = Some r \<Longrightarrow> readAt (l @ [x]) pos = Some r"
  by (auto simp: readAt_def nth_append split: if_splits)

text \<open>
  The one value of the model on which \<^verbatim>\<open>put\<close> throws is \<^verbatim>\<open>undefined\<close>; the record
  has been pushed by then and the index is left as it was. A sequence of calls returns
  throughout exactly when it has no such \<^verbatim>\<open>put\<close>.
\<close>

lemma JSON_stringify_None: "(JSON_stringify v = None) = (v = JSUndefined)"
  by (cases v) simp_all

lemma put_undefined_throws:
  "put s k JSUndefined now
     = (Throw TypeError, s\<lparr>log := log s @ [new_LogEntry now k JSUndefined False]\<rparr>)"
  by (simp add: put_def Let_def)

lemma returns_iff: "returns s ops = (\<forall>k now. Put k JSUndefined now \<notin> set ops)"
proof (induction ops arbitrary: s)
  case Nil
  then show ?case by simp
next
  case (Cons x xs)
  show ?case
  proof (cases x)
    case (Put k v now)
    then show ?thesis
      by (auto simp: Cons.IH returns_put JSON_stringify_None)
  next
    case (Delete k now)
    then show ?thesis
      by (simp add: Cons.IH delete_fst)
  qed
qed

section \<open>Index-log consistency\<close>






text \<open>
  The calls have to return: a \<^verbatim>\<open>put\<close> that throws has appended a live record that the
  index does not know.
\<close>

lemma put_undefined_not_indexed:
  "\<not> keyDir_has (snd (put new_BitcaskStore k JSUndefined now)) k
   \<and> latest_live k (log (snd (put new_BitcaskStore k JSUndefined now)))"
  by (simp add: put_undefined_throws keyDir_has_def new_BitcaskStore_def latest_live_def
      latest_def new_LogEntry_def)




section \<open>Reads after writes and deletes\<close>

lemma get_after_put:
  assumes "JSON_stringify v = Some str"
  shows "fst (get (snd (put s k v now)) k) = Normal v"
  by (simp add: get_def put_keyDir_Some [OF assms] put_log new_KeyDirEntry_def
      readAt_snoc_new new_LogEntry_def)

text \<open>
  C2. Write-then-read: for every store state, key \<open>k\<close> and value \<open>v\<close>, once \<^verbatim>\<open>put(k, v)\<close>
  has returned, \<^verbatim>\<open>get(k)\<close> returns exactly \<open>v\<close>.
\<close>

theorem write_then_read:
  assumes "fst (put s k v now) = Normal ()"
  shows "fst (get (snd (put s k v now)) k) = Normal v"
proof -
  from assms obtain str where "JSON_stringify v = Some str"
    by (auto simp: returns_put)
  then show ?thesis by (rule get_after_put)
qed

theorem write_then_read_witness:
  "fst (put new_BitcaskStore (js ''a'') (JSString (js ''1'')) (js ''t1'')) = Normal ()
   \<and> fst (get (snd (put new_BitcaskStore (js ''a'') (JSString (js ''1'')) (js ''t1'')))
        (js ''a'')) = Normal (JSString (js ''1''))"
proof -
  have r: "fst (put new_BitcaskStore (js ''a'') (JSString (js ''1'')) (js ''t1'')) = Normal ()"
    by (simp add: returns_put)
  from write_then_read [OF r] r show ?thesis by blast
qed

text \<open>
  C3. Delete visibility: for every store state and key \<open>k\<close> (present, deleted before or
  never written), \<^verbatim>\<open>delete(k)\<close> returns and \<^verbatim>\<open>get(k)\<close> then gives the not-found
  result \<^verbatim>\<open>null\<close>.
\<close>

theorem delete_visibility:
  "fst (delete s k now) = Normal ()
   \<and> fst (get (snd (delete s k now)) k) = Normal JSNull"
  by (simp add: delete_fst get_def delete_keyDir)




section \<open>The log only grows\<close>

text \<open>
  C5. History preservation: every \<^verbatim>\<open>put\<close> and every \<^verbatim>\<open>delete\<close>, from any store state
  (so also a delete of an absent key), makes the log exactly one record longer, and every
  record that was in the log is afterwards at the same position, unchanged.
\<close>

theorem history_preservation:
  "length (log (snd (put s k v now))) = length (log s) + 1
   \<and> length (log (snd (delete s k now))) = length (log s) + 1
   \<and> take (length (log s)) (log (snd (put s k v now))) = log s
   \<and> take (length (log s)) (log (snd (delete s k now))) = log s
   \<and> (i < length (log s) \<longrightarrow>
        log (snd (put s k v now)) ! i = log s ! i
      \<and> log (snd (delete s k now)) ! i = log s ! i
      \<and> readAt (log (snd (put s k v now))) (int i) = readAt (log s) (int i)
      \<and> readAt (log (snd (delete s k now))) (int i) = readAt (log s) (int i))"
  by (simp add: put_log delete_log nth_append readAt_def)

theorem history_preservation_witness:
  "(0::nat) < length (log (snd (put new_BitcaskStore (js ''a'') (JSString (js ''1'')) (js ''t1''))))
   \<and> log (snd (delete (snd (put new_BitcaskStore (js ''a'') (JSString (js ''1'')) (js ''t1'')))
          (js ''missing'') (js ''t2''))) ! 0
     = new_LogEntry (js ''t1'') (js ''a'') (JSString (js ''1'')) False
   \<and> length (log (snd (delete (snd (put new_BitcaskStore (js ''a'') (JSString (js ''1'')) (js ''t1'')))
          (js ''missing'') (js ''t2'')))) = 2"
proof -
  let ?s = "snd (put new_BitcaskStore (js ''a'') (JSString (js ''1'')) (js ''t1''))"
  have l: "log ?s = [new_LogEntry (js ''t1'') (js ''a'') (JSString (js ''1'')) False]"
    by (simp add: put_log new_BitcaskStore_def)
  then have h: "(0::nat) < length (log ?s)" by simp
  from history_preservation
    [where s = ?s and k = "js ''missing''" and now = "js ''t2''" and v = JSUndefined and i = 0] h l
  show ?thesis by simp
qed

section \<open>Reading changes nothing\<close>

text \<open>
  C10. \<^verbatim>\<open>get\<close> is read-only: for every store state and key, the store after
  \<^verbatim>\<open>get(k)\<close> is the store before it, log and index alike.
\<close>

theorem get_read_only: "snd (get s k) = s"
  by (simp add: get_def split: option.split)


section \<open>Index entries point at live records\<close>

lemma entry_live_new: "entry_live new_BitcaskStore k"
  by (simp add: entry_live_def new_BitcaskStore_def)

lemma entry_live_put:
  assumes "entry_live s k'"
  shows "entry_live (snd (put s k v now)) k'"
proof (cases "JSON_stringify v")
  case None
  with assms show ?thesis
    by (auto simp: entry_live_def put_keyDir_None put_log readAt_snoc_Some
        split: option.splits)
next
  case (Some str)
  with assms show ?thesis
    by (auto simp: entry_live_def put_keyDir_Some put_log readAt_snoc_Some readAt_snoc_new
        new_KeyDirEntry_def new_LogEntry_def split: option.splits)
qed

lemma entry_live_delete: "entry_live s k' \<Longrightarrow> entry_live (snd (delete s k now)) k'"
  by (auto simp: entry_live_def delete_keyDir delete_log readAt_snoc_Some
      split: option.splits)

lemma entry_live_apply_op: "entry_live s k \<Longrightarrow> entry_live (snd (apply_op s x)) k"
  by (cases x) (simp_all add: entry_live_put entry_live_delete)

lemma entry_live_run: "entry_live s k \<Longrightarrow> entry_live (run s ops) k"
  by (induction ops arbitrary: s) (simp_all add: entry_live_apply_op)

lemma readAt_Some_range: "readAt l pos = Some r \<Longrightarrow> 0 \<le> pos \<and> pos < int (length l)"
  by (simp add: readAt_def split: if_splits)

text \<open>
  C6. In every store state reached from the empty store by \<^verbatim>\<open>put\<close> and \<^verbatim>\<open>delete\<close>
  calls (a \<^verbatim>\<open>put\<close> that threw included), an index entry found for \<open>k\<close> has a position
  that is non-negative and below the log length, the record there is a live record of
  \<open>k\<close>, and \<^verbatim>\<open>get(k)\<close> returns that record's value: the read inside \<^verbatim>\<open>get\<close> neither
  fails nor meets a tombstone.
\<close>

theorem get_never_desynchronizes:
  assumes "keyDir (run new_BitcaskStore ops) k = Some e"
  shows "0 \<le> valuePos e
       \<and> valuePos e < int (length (log (run new_BitcaskStore ops)))
       \<and> (\<exists>r. readAt (log (run new_BitcaskStore ops)) (valuePos e) = Some r
              \<and> key r = k \<and> \<not> isTombstone r
              \<and> fst (get (run new_BitcaskStore ops) k) = Normal (value r))"
proof -
  have "entry_live (run new_BitcaskStore ops) k"
    using entry_live_new by (rule entry_live_run)
  with assms obtain r where r: "readAt (log (run new_BitcaskStore ops)) (valuePos e) = Some r"
    and live: "key r = k" "\<not> isTombstone r"
    by (auto simp: entry_live_def split: option.splits)
  from r have "0 \<le> valuePos e \<and> valuePos e < int (length (log (run new_BitcaskStore ops)))"
    by (rule readAt_Some_range)
  moreover from assms r have "fst (get (run new_BitcaskStore ops) k) = Normal (value r)"
    by (simp add: get_def)
  ultimately show ?thesis using r live by blast
qed

theorem get_never_desynchronizes_witness:
  "keyDir (run new_BitcaskStore
       [Put (js ''a'') (JSString (js ''1'')) (js ''t1''),
        Put (js ''a'') JSUndefined (js ''t2''),
        Delete (js ''b'') (js ''t3'')]) (js ''a'')
     = Some (new_KeyDirEntry (js ''active.data'') 3 0 (js ''t1''))
   \<and> fst (get (run new_BitcaskStore
       [Put (js ''a'') (JSString (js ''1'')) (js ''t1''),
        Put (js ''a'') JSUndefined (js ''t2''),
        Delete (js ''b'') (js ''t3'')]) (js ''a'')) = Normal (JSString (js ''1''))"
proof -
  let ?ops = "[Put (js ''a'') (JSString (js ''1'')) (js ''t1''),
        Put (js ''a'') JSUndefined (js ''t2''),
        Delete (js ''b'') (js ''t3'')]"
  have e: "keyDir (run new_BitcaskStore ?ops) (js ''a'')
      = Some (new_KeyDirEntry (js ''active.data'') 3 0 (js ''t1''))"
    by (simp add: put_def delete_def Let_def js_def new_BitcaskStore_def new_LogEntry_def
        QuoteJSONString_def is_leading_surrogate_def is_trailing_surrogate_def
        numeral_3_eq_3)
  have l: "readAt (log (run new_BitcaskStore ?ops)) 0
      = Some (new_LogEntry (js ''t1'') (js ''a'') (JSString (js ''1'')) False)"
    by (simp add: put_log delete_log new_BitcaskStore_def readAt_def)
  from get_never_desynchronizes [OF e] l e show ?thesis
    by (auto simp: new_KeyDirEntry_def new_LogEntry_def)
qed

section \<open>The positional read\<close>

lemma readAt_run: "readAt (log s) pos = Some r \<Longrightarrow> readAt (log (run s ops)) pos = Some r"
proof (induction ops arbitrary: s)
  case Nil
  then show ?case by simp
next
  case (Cons x xs)
  from Cons.prems have "readAt (log (snd (apply_op s x))) pos = Some r"
    by (cases x) (simp_all add: put_log delete_log readAt_snoc_Some)
  then show ?case by (simp add: Cons.IH)
qed

text \<open>
  C7 as stated fails here. The read at position 0 of an empty log does not fail: it evaluates to \<^verbatim>\<open>undefined\<close>.
  Inside \<^verbatim>\<open>get\<close>, on a store whose index entry points there, the error that surfaces is
  the \<^verbatim>\<open>TypeError\<close> of the field read that follows, not a range error.
\<close>

theorem readAt_out_of_range_counterexample:
  "readAt [] 0 = None
   \<and> fst (get \<lparr>log = [],
               keyDir = [js ''a'' \<mapsto> new_KeyDirEntry (js ''active.data'') 3 0 (js ''t1'')]\<rparr>
          (js ''a'')) = Throw TypeError
   \<and> fst (get \<lparr>log = [],
               keyDir = [js ''a'' \<mapsto> new_KeyDirEntry (js ''active.data'') 3 0 (js ''t1'')]\<rparr>
          (js ''a'')) \<noteq> Throw RangeError"
  by (simp add: readAt_def get_def new_KeyDirEntry_def)

text \<open>
  C7, as the code has it. The positional read \<^verbatim>\<open>this.log[pos]\<close> checks no range: at a
  position that is negative or at least the log length it evaluates to \<^verbatim>\<open>undefined\<close>
  and raises nothing, and \<^verbatim>\<open>get\<close> on an index entry with such a position throws a
  \<^verbatim>\<open>TypeError\<close>, leaving the store as it was. At a position already issued (non-negative
  and below the log length) it returns the record stored there, and still returns that same
  record after any further \<^verbatim>\<open>put\<close> and \<^verbatim>\<open>delete\<close> calls.
\<close>

theorem readAt_unchecked:
  "(pos < 0 \<or> int (length l) \<le> pos \<longrightarrow> readAt l pos = None)
   \<and> (keyDir s' k = Some e \<and> (valuePos e < 0 \<or> int (length (log s')) \<le> valuePos e)
        \<longrightarrow> get s' k = (Throw TypeError, s'))
   \<and> (0 \<le> p \<and> p < int (length (log s))
        \<longrightarrow> readAt (log s) p = Some (log s ! nat p)
          \<and> readAt (log (run s ops)) p = Some (log s ! nat p))"
proof -
  have a: "pos < 0 \<or> int (length l) \<le> pos \<longrightarrow> readAt l pos = None"
    by (auto simp: readAt_def)
  have b: "keyDir s' k = Some e \<and> (valuePos e < 0 \<or> int (length (log s')) \<le> valuePos e)
        \<longrightarrow> get s' k = (Throw TypeError, s')"
    by (auto simp: get_def readAt_def)
  have c: "0 \<le> p \<and> p < int (length (log s))
        \<longrightarrow> readAt (log s) p = Some (log s ! nat p)
          \<and> readAt (log (run s ops)) p = Some (log s ! nat p)"
  proof
    assume "0 \<le> p \<and> p < int (length (log s))"
    then have r: "readAt (log s) p = Some (log s ! nat p)"
      by (simp add: readAt_def)
    then have "readAt (log (run s ops)) p = Some (log s ! nat p)"
      by (rule readAt_run)
    with r show "readAt (log s) p = Some (log s ! nat p)
          \<and> readAt (log (run s ops)) p = Some (log s ! nat p)" by blast
  qed
  from a b c show ?thesis by blast
qed

theorem readAt_unchecked_witness:
  "readAt [] 5 = None
   \<and> get \<lparr>log = [],
           keyDir = [js ''a'' \<mapsto> new_KeyDirEntry (js ''active.data'') 3 (- 1) (js ''t1'')]\<rparr>
        (js ''a'')
     = (Throw TypeError,
        \<lparr>log = [],
         keyDir = [js ''a'' \<mapsto> new_KeyDirEntry (js ''active.data'') 3 (- 1) (js ''t1'')]\<rparr>)
   \<and> readAt (log (run (snd (put new_BitcaskStore (js ''a'') (JSString (js ''1'')) (js ''t1'')))
        [Put (js ''a'') (JSString (js ''2'')) (js ''t2''), Delete (js ''a'') (js ''t3'')])) 0
     = Some (new_LogEntry (js ''t1'') (js ''a'') (JSString (js ''1'')) False)"
proof -
  let ?d = "\<lparr>log = [],
           keyDir = [js ''a'' \<mapsto> new_KeyDirEntry (js ''active.data'') 3 (- 1) (js ''t1'')]\<rparr>"
  let ?e = "new_KeyDirEntry (js ''active.data'') 3 (- 1) (js ''t1'')"
  let ?s = "snd (put new_BitcaskStore (js ''a'') (JSString (js ''1'')) (js ''t1''))"
  let ?ops = "[Put (js ''a'') (JSString (js ''2'')) (js ''t2''), Delete (js ''a'') (js ''t3'')]"
  have h1: "(5::int) < 0 \<or> int (length ([]::LogEntry list)) \<le> 5" by simp
  have h2: "keyDir ?d (js ''a'') = Some ?e
      \<and> (valuePos ?e < 0 \<or> int (length (log ?d)) \<le> valuePos ?e)"
    by (simp add: new_KeyDirEntry_def)
  have l: "log ?s = [new_LogEntry (js ''t1'') (js ''a'') (JSString (js ''1'')) False]"
    by (simp add: put_log new_BitcaskStore_def)
  then have h3: "(0::int) \<le> 0 \<and> 0 < int (length (log ?s))" by simp
  from readAt_unchecked [where pos = 5 and l = "[]" and s' = ?d and k = "js ''a''" and e = ?e
      and p = 0 and s = ?s and ops = ?ops] h1 h2 h3
  have "readAt [] 5 = None \<and> get ?d (js ''a'') = (Throw TypeError, ?d)
      \<and> readAt (log (run ?s ?ops)) 0 = Some (log ?s ! nat 0)"
    by blast
  then show ?thesis by (simp add: l)
qed

section \<open>The cached value size\<close>

lemma length_UnicodeEscape: "length (UnicodeEscape u) = 6"
  by (simp add: UnicodeEscape_def)

lemma length_quote_units: "length x \<le> length (quote_units x)"
proof (induction x rule: length_induct)
  case (1 xs)
  show ?case
  proof (cases xs)
    case Nil
    then show ?thesis by simp
  next
    case (Cons u us)
    have us: "length us \<le> length (quote_units us)"
      using 1 Cons by simp
    show ?thesis
    proof (cases us)
      case Nil
      with Cons show ?thesis by (simp add: length_UnicodeEscape)
    next
      case (Cons v vs)
      have vs: "length vs \<le> length (quote_units vs)"
        using 1 \<open>xs = u # us\<close> Cons by simp
      from us vs \<open>xs = u # us\<close> Cons show ?thesis
        by (simp add: length_UnicodeEscape del: quote_units.simps(2)
            add: quote_units.simps(2) [of u "v # vs"])
    qed
  qed
qed

lemma length_QuoteJSONString: "length x + 2 \<le> length (QuoteJSONString x)"
  using length_quote_units [of x] by (simp add: QuoteJSONString_def)

text \<open>
  C8 as stated fails here. After \<^verbatim>\<open>put("a", "1")\<close> on the empty store the index entry of \<^verbatim>\<open>"a"\<close> has
  \<open>valueSize\<close> 3, the length of the serialisation \<^verbatim>\<open>"1"\<close> with its two quotes, while
  the value stored in the log record is the string \<^verbatim>\<open>1\<close> of length 1.
\<close>

theorem valueSize_counterexample:
  "map_option valueSize
     (keyDir (snd (put new_BitcaskStore (js ''a'') (JSString (js ''1'')) (js ''t1''))) (js ''a''))
     = Some 3
   \<and> map_option value
       (readAt (log (snd (put new_BitcaskStore (js ''a'') (JSString (js ''1'')) (js ''t1'')))) 0)
     = Some (JSString (js ''1''))
   \<and> length (js ''1'') = 1"
  by (simp add: put_def Let_def js_def new_BitcaskStore_def new_LogEntry_def new_KeyDirEntry_def
      QuoteJSONString_def is_leading_surrogate_def is_trailing_surrogate_def readAt_def)

text \<open>
  C8, as the code has it. After \<^verbatim>\<open>put(k, v)\<close> has returned, the index entry of \<open>k\<close> has
  \<open>valueSize\<close> equal to the length of \<^verbatim>\<open>JSON.stringify(v)\<close>; for a string \<open>v\<close> that
  is at least the length of \<open>v\<close> plus the two quotes.
\<close>

theorem valueSize_serialized:
  assumes "JSON_stringify v = Some str"
  shows "map_option valueSize (keyDir (snd (put s k v now)) k) = Some (length str)
       \<and> (v = JSString x \<longrightarrow> length x + 2 \<le> length str)"
proof -
  have "map_option valueSize (keyDir (snd (put s k v now)) k) = Some (length str)"
    by (simp add: put_keyDir_Some [OF assms] new_KeyDirEntry_def)
  moreover have "v = JSString x \<longrightarrow> length x + 2 \<le> length str"
    using assms length_QuoteJSONString [of x] by auto
  ultimately show ?thesis by blast
qed

theorem valueSize_serialized_witness:
  "JSON_stringify (JSString (js ''1'')) = Some [0x22, 0x31, 0x22]
   \<and> map_option valueSize
       (keyDir (snd (put new_BitcaskStore (js ''a'') (JSString (js ''1'')) (js ''t1'')))
          (js ''a'')) = Some 3
   \<and> length (js ''1'') + 2 \<le> (3::nat)"
proof -
  have h: "JSON_stringify (JSString (js ''1'')) = Some [0x22, 0x31, 0x22]"
    by (simp add: QuoteJSONString_def js_def is_leading_surrogate_def
        is_trailing_surrogate_def)
  have len: "length [0x22, 0x31, 0x22 :: 16 word] = 3" by simp
  from valueSize_serialized [OF h, of new_BitcaskStore "js ''a''" "js ''t1''" "js ''1''"]
  have "map_option valueSize
       (keyDir (snd (put new_BitcaskStore (js ''a'') (JSString (js ''1'')) (js ''t1'')))
          (js ''a'')) = Some (length [0x22, 0x31, 0x22 :: 16 word])
      \<and> length (js ''1'') + 2 \<le> length [0x22, 0x31, 0x22 :: 16 word]"
    by blast
  then have "map_option valueSize
       (keyDir (snd (put new_BitcaskStore (js ''a'') (JSString (js ''1'')) (js ''t1'')))
          (js ''a'')) = Some 3
      \<and> length (js ''1'') + 2 \<le> (3::nat)"
    by (simp only: len)
  with h show ?thesis by blast
qed

section \<open>The not-found result\<close>

text \<open>
  C9. Not-found is the value \<^verbatim>\<open>null\<close>, not a result variant of its own: for every
  store state and key \<open>k\<close>, \<^verbatim>\<open>put(k, null)\<close> returns and leaves \<open>k\<close> in the index, and
  \<^verbatim>\<open>get(k)\<close> then returns \<^verbatim>\<open>null\<close>, the same result as for \<open>k\<close> after a delete and
  for any key of the empty store.
\<close>

theorem null_is_notFound:
  "fst (put s k JSNull now) = Normal ()
   \<and> keyDir_has (snd (put s k JSNull now)) k
   \<and> fst (get (snd (put s k JSNull now)) k) = Normal JSNull
   \<and> fst (get (snd (delete s k now)) k) = Normal JSNull
   \<and> fst (get new_BitcaskStore k) = Normal JSNull"
proof -
  have str: "JSON_stringify JSNull = Some (js ''null'')" by simp
  have "fst (put s k JSNull now) = Normal ()"
    by (simp add: returns_put)
  moreover have "keyDir_has (snd (put s k JSNull now)) k"
    by (simp add: keyDir_has_put [OF str])
  moreover have "fst (get (snd (put s k JSNull now)) k) = Normal JSNull"
    using str by (rule get_after_put)
  moreover have "fst (get (snd (delete s k now)) k) = Normal JSNull"
    by (simp add: get_def delete_keyDir)
  moreover have "fst (get new_BitcaskStore k) = Normal JSNull"
    by (simp add: get_def new_BitcaskStore_def)
  ultimately show ?thesis by blast
qed

end
